theory Spec2Isabelle
  imports Main
begin

section \<open>The folder table of open-webui: data model\<close>

text \<open>
  Source: \<^verbatim>\<open>backend/open_webui/apps/webui/models/folders.py\<close>.

  Strings are \<^typ>\<open>string\<close>, compared for equality only; Python's \<^verbatim>\<open>Optional[T]\<close> is
  \<^typ>\<open>'a option\<close>, with \<^verbatim>\<open>None\<close> as \<^term>\<open>None\<close>; Python's unbounded
  integers are \<^typ>\<open>int\<close>.
\<close>

text \<open>
  The JSON payload of the \<^verbatim>\<open>meta\<close> column and of the extra keys of
  \<^verbatim>\<open>FolderItems\<close> (\<^verbatim>\<open>extra="allow"\<close>). The operations only store and
  return it; floating-point numbers are left out of the payload.
\<close>

datatype json =
    JNull
  | JBool bool
  | JInt int
  | JStr string
  | JArr "json list"
  | JObj "(string \<times> json) list"

text \<open>\<^verbatim>\<open>class FolderItems(BaseModel)\<close>: two optional id lists and any further keys.\<close>

record FolderItems =
  chat_ids :: "string list option"
  file_ids :: "string list option"
  extra :: "(string \<times> json) list"

text \<open>
  \<^verbatim>\<open>class FolderModel(BaseModel)\<close>, field by field. The primary key is written
  \<open>id'\<close>, since \<open>id\<close> is the identity function of HOL.

  \<^verbatim>\<open>class Folder(Base)\<close>, the row of table \<^verbatim>\<open>folder\<close>, has the same eight
  columns. The rows of the table are those written through \<^verbatim>\<open>FolderTable\<close>, which
  builds each one from a \<^verbatim>\<open>FolderModel\<close> and assigns values of the annotated
  types only, so a row and its model carry the same data:
  building the row from \<^verbatim>\<open>folder.model_dump()\<close> and
  \<^verbatim>\<open>FolderModel.model_validate(row)\<close> copy the fields, and \<^verbatim>\<open>items.model_dump()\<close> followed by validation gives the
  items back.
\<close>

record FolderModel =
  id' :: string
  parent_id :: "string option"
  user_id :: string
  name :: string
  items :: "FolderItems option"
  meta :: "(string \<times> json) list option"
  created_at :: int
  updated_at :: int

type_synonym Folder = FolderModel

text \<open>
  The table, in storage order. \<^verbatim>\<open>id\<close> is the primary key, so the rows of a
  table carry distinct ids.
\<close>

type_synonym folder_table = "Folder list"

definition pk_ok :: "folder_table \<Rightarrow> bool" where
  "pk_ok tbl = distinct (map id' tbl)"

section \<open>The environment of one call\<close>

text \<open>
  The calls on the session that reach the storage engine, and can therefore raise:
  \<^verbatim>\<open>db.query(...).first()\<close> and \<^verbatim>\<open>.all()\<close>, \<^verbatim>\<open>db.commit()\<close>,
  \<^verbatim>\<open>db.refresh(...)\<close>.
\<close>

datatype db_op = Query | Commit | Refresh

text \<open>
  The exceptions of the model: a storage error at one of the calls above, the primary-key
  violation of an insert, \<^verbatim>\<open>db.delete(None)\<close>, and the refresh of a row that is
  not in the table.
\<close>

datatype error =
    OperationalError db_op
  | IntegrityError
  | UnmappedInstanceError
  | InvalidRequestError

text \<open>
  What one call of an operation reads from outside the table:
  \<^item> \<open>uuid4\<close>: the value of \<^verbatim>\<open>str(uuid.uuid4())\<close>;
  \<^item> \<open>time_first\<close>, \<open>time_second\<close>: the values of the first and the second
    \<^verbatim>\<open>int(time.time())\<close> of the call, in evaluation order (only
    \<^verbatim>\<open>insert_new_folder\<close> reads the clock twice);
  \<^item> \<open>faults\<close>: the storage calls that raise during this call.
\<close>

record env =
  uuid4 :: string
  time_first :: int
  time_second :: int
  faults :: "db_op set"

section \<open>The storage session\<close>

text \<open>
  Modelled from the spec: \<^verbatim>\<open>get_db\<close> of
  \<^verbatim>\<open>open_webui.apps.webui.internal.db\<close> and the session it yields are not part
  of the source file. The spec asks for "a transactional session provider offering scoped
  acquire/release, basic filtered queries (equality predicates on indexed columns), insert,
  update-in-place, delete, and commit", each operation releasing the session "on all exit
  paths". So: acquiring and releasing the session do not touch the table; a query reads
  the committed rows; changes made on the session reach the table at a successful commit
  and are dropped otherwise.
\<close>

text \<open>\<^verbatim>\<open>db.query(Folder).filter_by(...).first()\<close>: the first row that matches.\<close>

definition db_first :: "env \<Rightarrow> folder_table \<Rightarrow> (Folder \<Rightarrow> bool) \<Rightarrow> error + Folder option" where
  "db_first e tbl P =
     (if Query \<in> faults e then Inl (OperationalError Query) else Inr (find P tbl))"

text \<open>\<^verbatim>\<open>db.query(Folder).filter_by(...).all()\<close>: every row that matches.\<close>

definition db_all :: "env \<Rightarrow> folder_table \<Rightarrow> (Folder \<Rightarrow> bool) \<Rightarrow> error + Folder list" where
  "db_all e tbl P =
     (if Query \<in> faults e then Inl (OperationalError Query) else Inr (filter P tbl))"

text \<open>
  The change a session holds when it commits: a row added with \<^verbatim>\<open>db.add\<close>, a
  loaded row whose attributes were assigned, a row marked with \<^verbatim>\<open>db.delete\<close>.
\<close>

datatype pending = Insert Folder | Update Folder | Remove Folder

text \<open>\<^verbatim>\<open>db.delete(folder)\<close> raises on \<^verbatim>\<open>None\<close>, which is no mapped instance.\<close>

definition db_delete :: "Folder option \<Rightarrow> error + pending" where
  "db_delete x = (case x of None \<Rightarrow> Inl UnmappedInstanceError | Some f \<Rightarrow> Inr (Remove f))"

text \<open>
  \<^verbatim>\<open>db.commit()\<close>: the insert is refused when the primary key is taken; update and
  delete address the row by its primary key.
\<close>

definition db_commit :: "env \<Rightarrow> folder_table \<Rightarrow> pending \<Rightarrow> error + folder_table" where
  "db_commit e tbl p =
     (if Commit \<in> faults e then Inl (OperationalError Commit)
      else case p of
        Insert f \<Rightarrow> if id' f \<in> set (map id' tbl) then Inl IntegrityError else Inr (tbl @ [f])
      | Update f \<Rightarrow> Inr (map (\<lambda>g. if id' g = id' f then f else g) tbl)
      | Remove f \<Rightarrow> Inr (filter (\<lambda>g. id' g \<noteq> id' f) tbl))"

text \<open>\<^verbatim>\<open>db.refresh(result)\<close>: the row is read again by its primary key.\<close>

definition db_refresh :: "env \<Rightarrow> folder_table \<Rightarrow> Folder \<Rightarrow> error + Folder" where
  "db_refresh e tbl f =
     (if Refresh \<in> faults e then Inl (OperationalError Refresh)
      else case find (\<lambda>g. id' g = id' f) tbl of
        None \<Rightarrow> Inl InvalidRequestError
      | Some g \<Rightarrow> Inr g)"

section \<open>\<^verbatim>\<open>class FolderTable\<close>\<close>

text \<open>
  Every operation takes the environment of the call and the table. An operation that
  writes returns its result with the table after the call. A result \<^term>\<open>Inl err\<close> is
  an exception that reaches the caller; \<^term>\<open>Inr v\<close> is the returned value \<open>v\<close>.
  Each \<^verbatim>\<open>except Exception\<close> of the source is the \<open>Inl\<close> branch of a
  \<^theory_text>\<open>case\<close> on what the guarded call gives.
\<close>

text \<open>
  \<^verbatim>\<open>insert_new_folder\<close>: the model is built from the generated id and two clock
  readings; add, commit and refresh are inside the \<^verbatim>\<open>try\<close>, whose handler
  returns \<^verbatim>\<open>None\<close>. The refreshed row is truthy, so it is returned.
\<close>

definition insert_new_folder ::
  "env \<Rightarrow> folder_table \<Rightarrow> string \<Rightarrow> string \<Rightarrow> string option
     \<Rightarrow> (error + FolderModel option) \<times> folder_table" where
  "insert_new_folder e tbl uid nm pid =
     (let folder = \<lparr>id' = uuid4 e, parent_id = pid, user_id = uid, name = nm,
                    items = None, meta = None,
                    created_at = time_first e, updated_at = time_second e\<rparr>
      in case db_commit e tbl (Insert folder) of
           Inl err \<Rightarrow> (Inr None, tbl)
         | Inr tbl' \<Rightarrow>
             (case db_refresh e tbl' folder of
                Inl err \<Rightarrow> (Inr None, tbl')
              | Inr result \<Rightarrow> (Inr (Some result), tbl')))"

text \<open>\<^verbatim>\<open>get_folder_by_id_and_user_id\<close>: any exception gives \<^verbatim>\<open>None\<close>.\<close>

definition get_folder_by_id_and_user_id ::
  "env \<Rightarrow> folder_table \<Rightarrow> string \<Rightarrow> string \<Rightarrow> error + FolderModel option" where
  "get_folder_by_id_and_user_id e tbl fid uid =
     (case db_first e tbl (\<lambda>f. id' f = fid \<and> user_id f = uid) of
        Inl err \<Rightarrow> Inr None
      | Inr None \<Rightarrow> Inr None
      | Inr (Some folder) \<Rightarrow> Inr (Some folder))"

text \<open>\<^verbatim>\<open>get_folders_by_user_id\<close>: no \<^verbatim>\<open>try\<close>; an exception of the query leaves the function.\<close>

definition get_folders_by_user_id ::
  "env \<Rightarrow> folder_table \<Rightarrow> string \<Rightarrow> error + FolderModel list" where
  "get_folders_by_user_id e tbl uid =
     (case db_all e tbl (\<lambda>f. user_id f = uid) of
        Inl err \<Rightarrow> Inl err
      | Inr rows \<Rightarrow> Inr rows)"

text \<open>
  \<^verbatim>\<open>get_folder_by_parent_id_and_user_id_and_name\<close>: the stored name is compared with
  \<^verbatim>\<open>name.lower()\<close>; \<^verbatim>\<open>parent_id=None\<close> selects the rows whose parent is null.

  \<^verbatim>\<open>str.lower\<close> is a built-in of Python, whose Unicode case table is not part of
  the source: the operation takes it as the parameter \<open>str_lower\<close>, and what is proved
  of the operation holds for every case mapping.
\<close>

definition get_folder_by_parent_id_and_user_id_and_name ::
  "(string \<Rightarrow> string) \<Rightarrow> env \<Rightarrow> folder_table \<Rightarrow> string option \<Rightarrow> string \<Rightarrow> string
     \<Rightarrow> error + FolderModel option" where
  "get_folder_by_parent_id_and_user_id_and_name str_lower e tbl pid uid nm =
     (case db_first e tbl
             (\<lambda>f. parent_id f = pid \<and> user_id f = uid \<and> name f = str_lower nm) of
        Inl err \<Rightarrow> Inr None
      | Inr None \<Rightarrow> Inr None
      | Inr (Some folder) \<Rightarrow> Inr (Some folder))"

text \<open>\<^verbatim>\<open>get_folders_by_parent_id_and_user_id\<close>: no \<^verbatim>\<open>try\<close> either.\<close>

definition get_folders_by_parent_id_and_user_id ::
  "env \<Rightarrow> folder_table \<Rightarrow> string option \<Rightarrow> string \<Rightarrow> error + FolderModel list" where
  "get_folders_by_parent_id_and_user_id e tbl pid uid =
     (case db_all e tbl (\<lambda>f. parent_id f = pid \<and> user_id f = uid) of
        Inl err \<Rightarrow> Inl err
      | Inr rows \<Rightarrow> Inr rows)"

text \<open>
  \<^verbatim>\<open>update_folder_parent_id_by_id_and_user_id\<close>. The annotation of the new parent
  is \<^verbatim>\<open>str\<close>; the column is nullable and the assignment takes \<^verbatim>\<open>None\<close> as
  well, so the model takes an optional string.
\<close>

definition update_folder_parent_id_by_id_and_user_id ::
  "env \<Rightarrow> folder_table \<Rightarrow> string \<Rightarrow> string \<Rightarrow> string option
     \<Rightarrow> (error + FolderModel option) \<times> folder_table" where
  "update_folder_parent_id_by_id_and_user_id e tbl fid uid pid =
     (case db_first e tbl (\<lambda>f. id' f = fid \<and> user_id f = uid) of
        Inl err \<Rightarrow> (Inr None, tbl)
      | Inr None \<Rightarrow> (Inr None, tbl)
      | Inr (Some folder) \<Rightarrow>
          (let folder' = folder\<lparr>parent_id := pid, updated_at := time_first e\<rparr>
           in case db_commit e tbl (Update folder') of
                Inl err \<Rightarrow> (Inr None, tbl)
              | Inr tbl' \<Rightarrow> (Inr (Some folder'), tbl')))"

text \<open>
  \<^verbatim>\<open>update_folder_name_by_id_and_user_id\<close>: the second query looks for a row with
  the new name, the parent of the target and the user; any such row ends the call.
\<close>

definition update_folder_name_by_id_and_user_id ::
  "env \<Rightarrow> folder_table \<Rightarrow> string \<Rightarrow> string \<Rightarrow> string
     \<Rightarrow> (error + FolderModel option) \<times> folder_table" where
  "update_folder_name_by_id_and_user_id e tbl fid uid nm =
     (case db_first e tbl (\<lambda>f. id' f = fid \<and> user_id f = uid) of
        Inl err \<Rightarrow> (Inr None, tbl)
      | Inr None \<Rightarrow> (Inr None, tbl)
      | Inr (Some folder) \<Rightarrow>
          (case db_first e tbl
                  (\<lambda>f. name f = nm \<and> parent_id f = parent_id folder \<and> user_id f = uid) of
             Inl err \<Rightarrow> (Inr None, tbl)
           | Inr (Some existing_folder) \<Rightarrow> (Inr None, tbl)
           | Inr None \<Rightarrow>
               (let folder' = folder\<lparr>name := nm, updated_at := time_first e\<rparr>
                in case db_commit e tbl (Update folder') of
                     Inl err \<Rightarrow> (Inr None, tbl)
                   | Inr tbl' \<Rightarrow> (Inr (Some folder'), tbl'))))"

text \<open>\<^verbatim>\<open>update_folder_items_by_id_and_user_id\<close>: the whole payload is replaced.\<close>

definition update_folder_items_by_id_and_user_id ::
  "env \<Rightarrow> folder_table \<Rightarrow> string \<Rightarrow> string \<Rightarrow> FolderItems
     \<Rightarrow> (error + FolderModel option) \<times> folder_table" where
  "update_folder_items_by_id_and_user_id e tbl fid uid its =
     (case db_first e tbl (\<lambda>f. id' f = fid \<and> user_id f = uid) of
        Inl err \<Rightarrow> (Inr None, tbl)
      | Inr None \<Rightarrow> (Inr None, tbl)
      | Inr (Some folder) \<Rightarrow>
          (let folder' = folder\<lparr>items := Some its, updated_at := time_first e\<rparr>
           in case db_commit e tbl (Update folder') of
                Inl err \<Rightarrow> (Inr None, tbl)
              | Inr tbl' \<Rightarrow> (Inr (Some folder'), tbl')))"

text \<open>
  \<^verbatim>\<open>delete_folder_by_id_and_user_id\<close>: the result of \<^verbatim>\<open>first()\<close> goes to
  \<^verbatim>\<open>db.delete\<close> unchecked; every exception gives \<^verbatim>\<open>False\<close>.
\<close>

definition delete_folder_by_id_and_user_id ::
  "env \<Rightarrow> folder_table \<Rightarrow> string \<Rightarrow> string \<Rightarrow> (error + bool) \<times> folder_table" where
  "delete_folder_by_id_and_user_id e tbl fid uid =
     (case db_first e tbl (\<lambda>f. id' f = fid \<and> user_id f = uid) of
        Inl err \<Rightarrow> (Inr False, tbl)
      | Inr folder \<Rightarrow>
          (case db_delete folder of
             Inl err \<Rightarrow> (Inr False, tbl)
           | Inr p \<Rightarrow>
               (case db_commit e tbl p of
                  Inl err \<Rightarrow> (Inr False, tbl)
                | Inr tbl' \<Rightarrow> (Inr True, tbl'))))"

section \<open>Example tables and environments\<close>

text \<open>Three rows of user \<open>u1\<close> at the root, and the environments of some calls.\<close>

definition folder_work :: Folder where
  "folder_work = \<lparr>id' = ''f-work'', parent_id = None, user_id = ''u1'', name = ''Work'',
                   items = None, meta = None,
                   created_at = 1700000000, updated_at = 1700000000\<rparr>"

definition folder_personal :: Folder where
  "folder_personal = \<lparr>id' = ''f-personal'', parent_id = None, user_id = ''u1'',
                       name = ''Personal'', items = None, meta = None,
                       created_at = 1700000050, updated_at = 1700000050\<rparr>"

definition folder_work_lower :: Folder where
  "folder_work_lower = \<lparr>id' = ''f-lower'', parent_id = None, user_id = ''u1'',
                         name = ''work'', items = None, meta = None,
                         created_at = 1700000060, updated_at = 1700000060\<rparr>"

text \<open>A call during which the storage answers and the clock stays within one second.\<close>

definition env_ok :: env where
  "env_ok = \<lparr>uuid4 = ''f-new'', time_first = 1700000100, time_second = 1700000100,
              faults = {}\<rparr>"

text \<open>A call during which the second changes between the two clock readings.\<close>

definition env_tick :: env where
  "env_tick = \<lparr>uuid4 = ''f-new'', time_first = 1700000100, time_second = 1700000101,
                faults = {}\<rparr>"

text \<open>A call in the second in which \<^term>\<open>folder_work\<close> was last written.\<close>

definition env_same_second :: env where
  "env_same_second = \<lparr>uuid4 = ''f-new'', time_first = 1700000000, time_second = 1700000000,
                       faults = {}\<rparr>"

text \<open>A call during which the storage cannot be reached: every storage call raises.\<close>

definition env_storage_down :: env where
  "env_storage_down = \<lparr>uuid4 = ''f-new'', time_first = 1700000100, time_second = 1700000100,
                        faults = {Query, Commit, Refresh}\<rparr>"

text \<open>
  A call whose generated id is already the id of \<^term>\<open>folder_work\<close>; the storage
  answers.
\<close>

definition env_collision :: env where
  "env_collision = \<lparr>uuid4 = ''f-work'', time_first = 1700000100, time_second = 1700000100,
                     faults = {}\<rparr>"

text \<open>
  The case mapping used in the examples, whose names are ASCII: on a string of ASCII
  characters \<^verbatim>\<open>str.lower\<close> replaces the letters \<open>A\<close> to \<open>Z\<close> by \<open>a\<close> to
  \<open>z\<close> and keeps every other character.
\<close>

definition is_ascii_upper :: "char \<Rightarrow> bool" where
  "is_ascii_upper c = (65 \<le> (of_char c :: nat) \<and> (of_char c :: nat) \<le> 90)"

definition ascii_lower_char :: "char \<Rightarrow> char" where
  "ascii_lower_char c = (if is_ascii_upper c then char_of ((of_char c :: nat) + 32) else c)"

definition ascii_lower :: "string \<Rightarrow> string" where
  "ascii_lower s = map ascii_lower_char s"

text \<open>A payload for \<^verbatim>\<open>update_folder_items_by_id_and_user_id\<close>.\<close>

definition items_example :: FolderItems where
  "items_example = \<lparr>chat_ids = Some [''c1'', ''c2''], file_ids = None, extra = []\<rparr>"

text \<open>
  The row that \<^verbatim>\<open>insert_new_folder\<close> builds for user \<open>u1\<close>, name \<open>Work\<close> and
  no parent when the generated id is \<open>f-new\<close> and the clock reads 1700000100 and then
  1700000101.
\<close>

definition folder_created_tick :: Folder where
  "folder_created_tick = \<lparr>id' = ''f-new'', parent_id = None, user_id = ''u1'', name = ''Work'',
                           items = None, meta = None,
                           created_at = 1700000100, updated_at = 1700000101\<rparr>"

text \<open>
  The row that \<^verbatim>\<open>insert_new_folder\<close> builds for the same arguments when both
  clock readings are 1700000100.
\<close>

definition folder_created :: Folder where
  "folder_created = \<lparr>id' = ''f-new'', parent_id = None, user_id = ''u1'', name = ''Work'',
                      items = None, meta = None,
                      created_at = 1700000100, updated_at = 1700000100\<rparr>"

section \<open>Lookups in a table with a primary key\<close>

lemma find_pk:
  "pk_ok tbl \<Longrightarrow> f \<in> set tbl \<Longrightarrow>
   find (\<lambda>g. id' g = id' f \<and> user_id g = u) tbl = (if user_id f = u then Some f else None)"
  unfolding pk_ok_def by (induction tbl) (auto simp: find_None_iff image_iff)

lemma find_SomeD: "find P xs = Some x \<Longrightarrow> x \<in> set xs \<and> P x"
  by (auto simp: find_Some_iff)

lemma pk_same_id:
  "pk_ok tbl \<Longrightarrow> f \<in> set tbl \<Longrightarrow> g \<in> set tbl \<Longrightarrow> id' g = id' f \<Longrightarrow> g = f"
  unfolding pk_ok_def by (simp add: distinct_map inj_on_def)

section \<open>Reading and deleting with the wrong user\<close>

text \<open>
  C3. For every stored folder and every user different from its owner,
  \<^verbatim>\<open>get_folder_by_id_and_user_id\<close> with the folder's id and that user returns
  \<^verbatim>\<open>None\<close>, although a row with the id exists. This holds in every environment.
\<close>

theorem get_folder_other_user_absent:
  assumes "pk_ok tbl" and "f \<in> set tbl" and "uid \<noteq> user_id f"
  shows "get_folder_by_id_and_user_id e tbl (id' f) uid = Inr None"
  using assms by (simp add: get_folder_by_id_and_user_id_def db_first_def find_pk)

theorem get_folder_other_user_absent_witness:
  "pk_ok [folder_work, folder_personal]
   \<and> folder_work \<in> set [folder_work, folder_personal]
   \<and> ''u2'' \<noteq> user_id folder_work
   \<and> get_folder_by_id_and_user_id env_ok [folder_work, folder_personal]
        (id' folder_work) ''u2'' = Inr None"
  using get_folder_other_user_absent
          [of "[folder_work, folder_personal]" folder_work "''u2''" env_ok]
  by (simp add: pk_ok_def folder_work_def folder_personal_def)

text \<open>
  C6. For every stored folder and every user different from its owner,
  \<^verbatim>\<open>delete_folder_by_id_and_user_id\<close> with the folder's id and that user returns
  \<^verbatim>\<open>False\<close> and leaves the table as it was; and it returns \<^verbatim>\<open>False\<close>, with
  the table as it was, whenever no row matches the id and the user.
\<close>

theorem delete_no_match:
  assumes "pk_ok tbl"
  shows "(f \<in> set tbl \<and> uid \<noteq> user_id f \<longrightarrow>
            delete_folder_by_id_and_user_id e tbl (id' f) uid = (Inr False, tbl))
       \<and> ((\<forall>g \<in> set tbl. \<not> (id' g = fid \<and> user_id g = uid)) \<longrightarrow>
            delete_folder_by_id_and_user_id e tbl fid uid = (Inr False, tbl))"
proof (intro conjI impI)
  assume "f \<in> set tbl \<and> uid \<noteq> user_id f"
  with assms have "find (\<lambda>g. id' g = id' f \<and> user_id g = uid) tbl = None"
    by (auto simp: find_pk)
  then show "delete_folder_by_id_and_user_id e tbl (id' f) uid = (Inr False, tbl)"
    by (simp add: delete_folder_by_id_and_user_id_def db_first_def db_delete_def)
next
  assume "\<forall>g \<in> set tbl. \<not> (id' g = fid \<and> user_id g = uid)"
  then have "find (\<lambda>g. id' g = fid \<and> user_id g = uid) tbl = None"
    by (simp add: find_None_iff)
  then show "delete_folder_by_id_and_user_id e tbl fid uid = (Inr False, tbl)"
    by (simp add: delete_folder_by_id_and_user_id_def db_first_def db_delete_def)
qed

theorem delete_no_match_witness:
  "pk_ok [folder_work, folder_personal]
   \<and> folder_work \<in> set [folder_work, folder_personal] \<and> ''u2'' \<noteq> user_id folder_work
   \<and> delete_folder_by_id_and_user_id env_ok [folder_work, folder_personal]
        (id' folder_work) ''u2'' = (Inr False, [folder_work, folder_personal])
   \<and> delete_folder_by_id_and_user_id env_ok [folder_work, folder_personal]
        ''f-gone'' ''u2'' = (Inr False, [folder_work, folder_personal])"
  using delete_no_match
          [where tbl = "[folder_work, folder_personal]" and f = folder_work
             and uid = "''u2''" and e = env_ok and fid = "''f-gone''"]
  by (simp add: pk_ok_def folder_work_def folder_personal_def)

section \<open>Renaming to a name that is taken\<close>

text \<open>
  C2. For every folder reachable by its id and user, if
  \<^verbatim>\<open>update_folder_name_by_id_and_user_id\<close> is called with a name that another
  folder with the same parent and user carries, the call returns \<^verbatim>\<open>None\<close> and
  the table after the call is the table before it, so the name and \<^verbatim>\<open>updated_at\<close>
  of the target are as before.
\<close>

theorem rename_conflict:
  assumes "pk_ok tbl" and "f \<in> set tbl"
    and "g \<in> set tbl" and "id' g \<noteq> id' f"
    and "name g = nm" and "parent_id g = parent_id f" and "user_id g = user_id f"
  shows "update_folder_name_by_id_and_user_id e tbl (id' f) (user_id f) nm = (Inr None, tbl)"
proof -
  have target: "find (\<lambda>h. id' h = id' f \<and> user_id h = user_id f) tbl = Some f"
    using assms(1,2) by (simp add: find_pk)
  have "find (\<lambda>h. name h = nm \<and> parent_id h = parent_id f \<and> user_id h = user_id f) tbl \<noteq> None"
    using assms(3,5,6,7) by (auto simp: find_None_iff)
  then obtain x where
    "find (\<lambda>h. name h = nm \<and> parent_id h = parent_id f \<and> user_id h = user_id f) tbl = Some x"
    by auto
  with target show ?thesis
    by (simp add: update_folder_name_by_id_and_user_id_def db_first_def)
qed

theorem rename_conflict_witness:
  "pk_ok [folder_work, folder_personal]
   \<and> folder_personal \<in> set [folder_work, folder_personal]
   \<and> folder_work \<in> set [folder_work, folder_personal]
   \<and> id' folder_work \<noteq> id' folder_personal
   \<and> name folder_work = ''Work''
   \<and> parent_id folder_work = parent_id folder_personal
   \<and> user_id folder_work = user_id folder_personal
   \<and> update_folder_name_by_id_and_user_id env_ok [folder_work, folder_personal]
        (id' folder_personal) (user_id folder_personal) ''Work''
      = (Inr None, [folder_work, folder_personal])"
  using rename_conflict
          [of "[folder_work, folder_personal]" folder_personal folder_work "''Work''" env_ok]
  by (simp add: pk_ok_def folder_work_def folder_personal_def)

text \<open>
  C9. For every folder reachable by its id and user,
  \<^verbatim>\<open>update_folder_name_by_id_and_user_id\<close> with the folder's own name returns
  \<^verbatim>\<open>None\<close>, the second query finding the folder itself or a sibling of that name,
  and leaves the table, hence the folder's name and \<^verbatim>\<open>updated_at\<close>, as it was.
\<close>

theorem rename_to_own_name:
  assumes "pk_ok tbl" and "f \<in> set tbl"
  shows "update_folder_name_by_id_and_user_id e tbl (id' f) (user_id f) (name f)
         = (Inr None, tbl)"
proof -
  have target: "find (\<lambda>h. id' h = id' f \<and> user_id h = user_id f) tbl = Some f"
    using assms by (simp add: find_pk)
  have "find (\<lambda>h. name h = name f \<and> parent_id h = parent_id f \<and> user_id h = user_id f) tbl
        \<noteq> None"
    using assms(2) by (auto simp: find_None_iff)
  then obtain x where
    "find (\<lambda>h. name h = name f \<and> parent_id h = parent_id f \<and> user_id h = user_id f) tbl
     = Some x"
    by auto
  with target show ?thesis
    by (simp add: update_folder_name_by_id_and_user_id_def db_first_def)
qed

theorem rename_to_own_name_witness:
  "pk_ok [folder_work, folder_personal]
   \<and> folder_personal \<in> set [folder_work, folder_personal]
   \<and> update_folder_name_by_id_and_user_id env_ok [folder_work, folder_personal]
        (id' folder_personal) (user_id folder_personal) (name folder_personal)
      = (Inr None, [folder_work, folder_personal])"
  using rename_to_own_name [of "[folder_work, folder_personal]" folder_personal env_ok]
  by (simp add: pk_ok_def folder_work_def folder_personal_def)

section \<open>Updates of one row\<close>

lemma replace_row:
  assumes "pk_ok tbl" and "f \<in> set tbl"
  shows "map (\<lambda>g. if id' g = id' f then f' else g) tbl = map (\<lambda>g. if g = f then f' else g) tbl"
proof (rule map_cong [OF refl])
  fix g assume "g \<in> set tbl"
  then show "(if id' g = id' f then f' else g) = (if g = f then f' else g)"
    using pk_same_id [OF assms, of g] by auto
qed

lemma commit_update:
  assumes "pk_ok tbl" and "f \<in> set tbl" and "id' f' = id' f" and "Commit \<notin> faults e"
  shows "db_commit e tbl (Update f') = Inr (map (\<lambda>g. if g = f then f' else g) tbl)"
  using assms replace_row [OF assms(1,2), of f'] by (simp add: db_commit_def)

lemma target_found:
  assumes "pk_ok tbl" and "f \<in> set tbl" and "Query \<notin> faults e"
  shows "db_first e tbl (\<lambda>g. id' g = id' f \<and> user_id g = user_id f) = Inr (Some f)"
  using assms by (simp add: db_first_def find_pk)

lemma db_first_SomeD:
  "db_first e tbl P = Inr (Some f) \<Longrightarrow> f \<in> set tbl \<and> P f \<and> Query \<notin> faults e"
  by (auto simp: db_first_def dest: find_SomeD split: if_splits)

lemma db_commit_InrD: "db_commit e tbl p = Inr tbl' \<Longrightarrow> Commit \<notin> faults e"
  by (auto simp: db_commit_def split: if_splits)

lemma update_parent_Some:
  assumes "pk_ok tbl"
    and "update_folder_parent_id_by_id_and_user_id e tbl fid uid pid = (Inr (Some f'), tbl')"
  shows "\<exists>f \<in> set tbl. id' f = fid \<and> user_id f = uid
           \<and> f' = f\<lparr>parent_id := pid, updated_at := time_first e\<rparr>
           \<and> tbl' = map (\<lambda>g. if g = f then f' else g) tbl"
proof -
  from assms(2) obtain f where
    f: "db_first e tbl (\<lambda>g. id' g = fid \<and> user_id g = uid) = Inr (Some f)"
    by (auto simp: update_folder_parent_id_by_id_and_user_id_def split: sum.splits option.splits)
  then have mem: "f \<in> set tbl" "id' f = fid" "user_id f = uid"
    by (auto dest: db_first_SomeD)
  from assms(2) f obtain t where
    c: "db_commit e tbl (Update (f\<lparr>parent_id := pid, updated_at := time_first e\<rparr>)) = Inr t"
    and r: "f' = f\<lparr>parent_id := pid, updated_at := time_first e\<rparr>" "tbl' = t"
    by (auto simp: update_folder_parent_id_by_id_and_user_id_def Let_def split: sum.splits)
  from c have "Commit \<notin> faults e" by (rule db_commit_InrD)
  with assms(1) mem(1) have
    "db_commit e tbl (Update (f\<lparr>parent_id := pid, updated_at := time_first e\<rparr>))
     = Inr (map (\<lambda>g. if g = f then f\<lparr>parent_id := pid, updated_at := time_first e\<rparr> else g) tbl)"
    by (intro commit_update) simp_all
  with c r mem show ?thesis by auto
qed

lemma update_name_Some:
  assumes "pk_ok tbl"
    and "update_folder_name_by_id_and_user_id e tbl fid uid nm = (Inr (Some f'), tbl')"
  shows "\<exists>f \<in> set tbl. id' f = fid \<and> user_id f = uid
           \<and> f' = f\<lparr>name := nm, updated_at := time_first e\<rparr>
           \<and> tbl' = map (\<lambda>g. if g = f then f' else g) tbl"
proof -
  from assms(2) obtain f where
    f: "db_first e tbl (\<lambda>g. id' g = fid \<and> user_id g = uid) = Inr (Some f)"
    by (auto simp: update_folder_name_by_id_and_user_id_def split: sum.splits option.splits)
  then have mem: "f \<in> set tbl" "id' f = fid" "user_id f = uid"
    by (auto dest: db_first_SomeD)
  from assms(2) f obtain t where
    c: "db_commit e tbl (Update (f\<lparr>name := nm, updated_at := time_first e\<rparr>)) = Inr t"
    and r: "f' = f\<lparr>name := nm, updated_at := time_first e\<rparr>" "tbl' = t"
    by (auto simp: update_folder_name_by_id_and_user_id_def Let_def split: sum.splits option.splits)
  from c have "Commit \<notin> faults e" by (rule db_commit_InrD)
  with assms(1) mem(1) have
    "db_commit e tbl (Update (f\<lparr>name := nm, updated_at := time_first e\<rparr>))
     = Inr (map (\<lambda>g. if g = f then f\<lparr>name := nm, updated_at := time_first e\<rparr> else g) tbl)"
    by (intro commit_update) simp_all
  with c r mem show ?thesis by auto
qed

lemma update_items_Some:
  assumes "pk_ok tbl"
    and "update_folder_items_by_id_and_user_id e tbl fid uid its = (Inr (Some f'), tbl')"
  shows "\<exists>f \<in> set tbl. id' f = fid \<and> user_id f = uid
           \<and> f' = f\<lparr>items := Some its, updated_at := time_first e\<rparr>
           \<and> tbl' = map (\<lambda>g. if g = f then f' else g) tbl"
proof -
  from assms(2) obtain f where
    f: "db_first e tbl (\<lambda>g. id' g = fid \<and> user_id g = uid) = Inr (Some f)"
    by (auto simp: update_folder_items_by_id_and_user_id_def split: sum.splits option.splits)
  then have mem: "f \<in> set tbl" "id' f = fid" "user_id f = uid"
    by (auto dest: db_first_SomeD)
  from assms(2) f obtain t where
    c: "db_commit e tbl (Update (f\<lparr>items := Some its, updated_at := time_first e\<rparr>)) = Inr t"
    and r: "f' = f\<lparr>items := Some its, updated_at := time_first e\<rparr>" "tbl' = t"
    by (auto simp: update_folder_items_by_id_and_user_id_def Let_def split: sum.splits)
  from c have "Commit \<notin> faults e" by (rule db_commit_InrD)
  with assms(1) mem(1) have
    "db_commit e tbl (Update (f\<lparr>items := Some its, updated_at := time_first e\<rparr>))
     = Inr (map (\<lambda>g. if g = f then f\<lparr>items := Some its, updated_at := time_first e\<rparr> else g) tbl)"
    by (intro commit_update) simp_all
  with c r mem show ?thesis by auto
qed

lemma pk_ok_replace:
  "pk_ok tbl \<Longrightarrow> id' f' = id' f \<Longrightarrow> pk_ok (map (\<lambda>g. if g = f then f' else g) tbl)"
proof -
  assume a: "pk_ok tbl" "id' f' = id' f"
  have eq: "map id' (map (\<lambda>g. if g = f then f' else g) tbl) = map id' tbl"
    using a(2) by (induction tbl) auto
  from a(1) show ?thesis unfolding pk_ok_def eq .
qed

lemma nth_replace:
  "j < length tbl \<Longrightarrow> map (\<lambda>g. if g = f then f' else g) tbl ! j = (if tbl ! j = f then f' else tbl ! j)"
  by simp

lemma update_parent_succeeds:
  assumes "pk_ok tbl" and "f \<in> set tbl" and "Query \<notin> faults e" and "Commit \<notin> faults e"
  shows "update_folder_parent_id_by_id_and_user_id e tbl (id' f) (user_id f) pid
         = (Inr (Some (f\<lparr>parent_id := pid, updated_at := time_first e\<rparr>)),
            map (\<lambda>g. if g = f then f\<lparr>parent_id := pid, updated_at := time_first e\<rparr> else g) tbl)"
proof -
  have "db_commit e tbl (Update (f\<lparr>parent_id := pid, updated_at := time_first e\<rparr>))
        = Inr (map (\<lambda>g. if g = f then f\<lparr>parent_id := pid, updated_at := time_first e\<rparr> else g) tbl)"
    using assms by (intro commit_update) simp_all
  then show ?thesis
    using target_found [OF assms(1,2,3)]
    by (simp add: update_folder_parent_id_by_id_and_user_id_def Let_def)
qed

lemma stored_after_replace:
  assumes "pk_ok tbl" and "f \<in> set tbl" and "id' f' = id' f" and "user_id f' = user_id f"
  shows "find (\<lambda>g. id' g = id' f \<and> user_id g = user_id f) (map (\<lambda>g. if g = f then f' else g) tbl)
         = Some f'"
proof -
  have "pk_ok (map (\<lambda>g. if g = f then f' else g) tbl)"
    using assms(1,3) by (rule pk_ok_replace)
  moreover have "f' \<in> set (map (\<lambda>g. if g = f then f' else g) tbl)"
    using assms(2) by force
  ultimately have "find (\<lambda>g. id' g = id' f' \<and> user_id g = user_id f)
                     (map (\<lambda>g. if g = f then f' else g) tbl)
                   = (if user_id f' = user_id f then Some f' else None)"
    by (rule find_pk)
  with assms(3,4) show ?thesis by simp
qed

lemmas ops_defs =
  update_folder_parent_id_by_id_and_user_id_def update_folder_name_by_id_and_user_id_def
  update_folder_items_by_id_and_user_id_def db_first_def db_commit_def

text \<open>
  C10. Each successful update changes its own field and \<^verbatim>\<open>updated_at\<close> of the
  target and nothing else: the parent update changes \<^verbatim>\<open>parent_id\<close>, the rename
  changes \<^verbatim>\<open>name\<close>, the items update changes \<^verbatim>\<open>items\<close>; in all three the
  id, the user, \<^verbatim>\<open>meta\<close>, \<^verbatim>\<open>created_at\<close> and the other two fields keep
  their values, and every other row of the table is as before, at its place.
\<close>

theorem update_frame:
  assumes "pk_ok tbl"
  shows
    "(update_folder_parent_id_by_id_and_user_id e tbl fid uid pid = (Inr (Some f1), t1) \<longrightarrow>
        (\<exists>f \<in> set tbl. id' f = fid \<and> user_id f = uid
           \<and> parent_id f1 = pid \<and> updated_at f1 = time_first e
           \<and> id' f1 = id' f \<and> user_id f1 = user_id f \<and> name f1 = name f
           \<and> items f1 = items f \<and> meta f1 = meta f \<and> created_at f1 = created_at f
           \<and> length t1 = length tbl
           \<and> (\<forall>j < length tbl. t1 ! j = (if tbl ! j = f then f1 else tbl ! j))))
   \<and> (update_folder_name_by_id_and_user_id e tbl fid uid nm = (Inr (Some f2), t2) \<longrightarrow>
        (\<exists>f \<in> set tbl. id' f = fid \<and> user_id f = uid
           \<and> name f2 = nm \<and> updated_at f2 = time_first e
           \<and> id' f2 = id' f \<and> user_id f2 = user_id f \<and> parent_id f2 = parent_id f
           \<and> items f2 = items f \<and> meta f2 = meta f \<and> created_at f2 = created_at f
           \<and> length t2 = length tbl
           \<and> (\<forall>j < length tbl. t2 ! j = (if tbl ! j = f then f2 else tbl ! j))))
   \<and> (update_folder_items_by_id_and_user_id e tbl fid uid its = (Inr (Some f3), t3) \<longrightarrow>
        (\<exists>f \<in> set tbl. id' f = fid \<and> user_id f = uid
           \<and> items f3 = Some its \<and> updated_at f3 = time_first e
           \<and> id' f3 = id' f \<and> user_id f3 = user_id f \<and> parent_id f3 = parent_id f
           \<and> name f3 = name f \<and> meta f3 = meta f \<and> created_at f3 = created_at f
           \<and> length t3 = length tbl
           \<and> (\<forall>j < length tbl. t3 ! j = (if tbl ! j = f then f3 else tbl ! j))))"
proof (intro conjI impI)
  assume "update_folder_parent_id_by_id_and_user_id e tbl fid uid pid = (Inr (Some f1), t1)"
  from update_parent_Some [OF assms this] obtain f where
    "f \<in> set tbl" "id' f = fid" "user_id f = uid"
    "f1 = f\<lparr>parent_id := pid, updated_at := time_first e\<rparr>"
    "t1 = map (\<lambda>g. if g = f then f1 else g) tbl"
    by blast
  then show "\<exists>f \<in> set tbl. id' f = fid \<and> user_id f = uid
           \<and> parent_id f1 = pid \<and> updated_at f1 = time_first e
           \<and> id' f1 = id' f \<and> user_id f1 = user_id f \<and> name f1 = name f
           \<and> items f1 = items f \<and> meta f1 = meta f \<and> created_at f1 = created_at f
           \<and> length t1 = length tbl
           \<and> (\<forall>j < length tbl. t1 ! j = (if tbl ! j = f then f1 else tbl ! j))"
    by (intro bexI [of _ f]) simp_all
next
  assume "update_folder_name_by_id_and_user_id e tbl fid uid nm = (Inr (Some f2), t2)"
  from update_name_Some [OF assms this] obtain f where
    "f \<in> set tbl" "id' f = fid" "user_id f = uid"
    "f2 = f\<lparr>name := nm, updated_at := time_first e\<rparr>"
    "t2 = map (\<lambda>g. if g = f then f2 else g) tbl"
    by blast
  then show "\<exists>f \<in> set tbl. id' f = fid \<and> user_id f = uid
           \<and> name f2 = nm \<and> updated_at f2 = time_first e
           \<and> id' f2 = id' f \<and> user_id f2 = user_id f \<and> parent_id f2 = parent_id f
           \<and> items f2 = items f \<and> meta f2 = meta f \<and> created_at f2 = created_at f
           \<and> length t2 = length tbl
           \<and> (\<forall>j < length tbl. t2 ! j = (if tbl ! j = f then f2 else tbl ! j))"
    by (intro bexI [of _ f]) simp_all
next
  assume "update_folder_items_by_id_and_user_id e tbl fid uid its = (Inr (Some f3), t3)"
  from update_items_Some [OF assms this] obtain f where
    "f \<in> set tbl" "id' f = fid" "user_id f = uid"
    "f3 = f\<lparr>items := Some its, updated_at := time_first e\<rparr>"
    "t3 = map (\<lambda>g. if g = f then f3 else g) tbl"
    by blast
  then show "\<exists>f \<in> set tbl. id' f = fid \<and> user_id f = uid
           \<and> items f3 = Some its \<and> updated_at f3 = time_first e
           \<and> id' f3 = id' f \<and> user_id f3 = user_id f \<and> parent_id f3 = parent_id f
           \<and> name f3 = name f \<and> meta f3 = meta f \<and> created_at f3 = created_at f
           \<and> length t3 = length tbl
           \<and> (\<forall>j < length tbl. t3 ! j = (if tbl ! j = f then f3 else tbl ! j))"
    by (intro bexI [of _ f]) simp_all
qed

theorem update_frame_witness:
  "pk_ok [folder_work, folder_personal]
   \<and> update_folder_parent_id_by_id_and_user_id env_ok [folder_work, folder_personal]
        ''f-personal'' ''u1'' (Some ''f-work'')
      = (Inr (Some (folder_personal\<lparr>parent_id := Some ''f-work'', updated_at := 1700000100\<rparr>)),
         [folder_work, folder_personal\<lparr>parent_id := Some ''f-work'', updated_at := 1700000100\<rparr>])
   \<and> update_folder_name_by_id_and_user_id env_ok [folder_work, folder_personal]
        ''f-personal'' ''u1'' ''Play''
      = (Inr (Some (folder_personal\<lparr>name := ''Play'', updated_at := 1700000100\<rparr>)),
         [folder_work, folder_personal\<lparr>name := ''Play'', updated_at := 1700000100\<rparr>])
   \<and> update_folder_items_by_id_and_user_id env_ok [folder_work, folder_personal]
        ''f-personal'' ''u1'' items_example
      = (Inr (Some (folder_personal\<lparr>items := Some items_example, updated_at := 1700000100\<rparr>)),
         [folder_work, folder_personal\<lparr>items := Some items_example, updated_at := 1700000100\<rparr>])
   \<and> (\<exists>f \<in> set [folder_work, folder_personal]. id' f = ''f-personal'' \<and> created_at f = 1700000050)"
  using update_frame
      [where tbl = "[folder_work, folder_personal]" and e = env_ok
         and fid = "''f-personal''" and uid = "''u1''"
         and pid = "Some ''f-work''" and nm = "''Play''" and its = items_example
         and ?f1.0 = "folder_personal\<lparr>parent_id := Some ''f-work'', updated_at := 1700000100\<rparr>"
         and ?t1.0 = "[folder_work, folder_personal\<lparr>parent_id := Some ''f-work'', updated_at := 1700000100\<rparr>]"
         and ?f2.0 = "folder_personal\<lparr>name := ''Play'', updated_at := 1700000100\<rparr>"
         and ?t2.0 = "[folder_work, folder_personal\<lparr>name := ''Play'', updated_at := 1700000100\<rparr>]"
         and ?f3.0 = "folder_personal\<lparr>items := Some items_example, updated_at := 1700000100\<rparr>"
         and ?t3.0 = "[folder_work, folder_personal\<lparr>items := Some items_example, updated_at := 1700000100\<rparr>]"]
  by (simp add: pk_ok_def folder_work_def folder_personal_def env_ok_def ops_defs Let_def)

text \<open>
  C5, as the code has it. For every folder reachable by its id and user, when the query
  and the commit do not fail, \<^verbatim>\<open>update_folder_parent_id_by_id_and_user_id\<close> stores
  and returns the folder with the new parent and with \<^verbatim>\<open>updated_at\<close> set to the
  clock reading of the call. The new \<^verbatim>\<open>updated_at\<close> is strictly greater than the
  previous one exactly when the clock reading is.
\<close>

theorem set_parent_updates:
  assumes "pk_ok tbl" and "f \<in> set tbl" and "Query \<notin> faults e" and "Commit \<notin> faults e"
  shows "\<exists>f' tbl'.
           update_folder_parent_id_by_id_and_user_id e tbl (id' f) (user_id f) pid
             = (Inr (Some f'), tbl')
         \<and> find (\<lambda>g. id' g = id' f \<and> user_id g = user_id f) tbl' = Some f'
         \<and> parent_id f' = pid
         \<and> updated_at f' = time_first e
         \<and> (updated_at f < updated_at f' \<longleftrightarrow> updated_at f < time_first e)"
proof -
  let ?f' = "f\<lparr>parent_id := pid, updated_at := time_first e\<rparr>"
  let ?tbl' = "map (\<lambda>g. if g = f then ?f' else g) tbl"
  have "update_folder_parent_id_by_id_and_user_id e tbl (id' f) (user_id f) pid
        = (Inr (Some ?f'), ?tbl')"
    using assms by (rule update_parent_succeeds)
  moreover have "find (\<lambda>g. id' g = id' f \<and> user_id g = user_id f) ?tbl' = Some ?f'"
    using assms(1,2) by (intro stored_after_replace) simp_all
  ultimately show ?thesis by simp
qed

theorem set_parent_updates_witness:
  "pk_ok [folder_work, folder_personal] \<and> folder_personal \<in> set [folder_work, folder_personal]
   \<and> Query \<notin> faults env_ok \<and> Commit \<notin> faults env_ok
   \<and> (\<exists>f' tbl'.
        update_folder_parent_id_by_id_and_user_id env_ok [folder_work, folder_personal]
          (id' folder_personal) (user_id folder_personal) (Some ''f-work'') = (Inr (Some f'), tbl')
        \<and> find (\<lambda>g. id' g = id' folder_personal \<and> user_id g = user_id folder_personal) tbl'
            = Some f'
        \<and> parent_id f' = Some ''f-work''
        \<and> updated_at f' = time_first env_ok
        \<and> (updated_at folder_personal < updated_at f'
             \<longleftrightarrow> updated_at folder_personal < time_first env_ok))"
  using set_parent_updates
      [of "[folder_work, folder_personal]" folder_personal env_ok "Some ''f-work''"]
  by (simp add: pk_ok_def folder_work_def folder_personal_def env_ok_def)

text \<open>
  C5 as stated fails when the call falls in the second of the previous write: the
  folder last written at 1700000000 is re-parented at 1700000000, and its
  \<^verbatim>\<open>updated_at\<close> is not greater than before.
\<close>

theorem set_parent_same_second_counterexample:
  "update_folder_parent_id_by_id_and_user_id env_same_second [folder_work]
     (id' folder_work) (user_id folder_work) (Some ''f-personal'')
   = (Inr (Some (folder_work\<lparr>parent_id := Some ''f-personal''\<rparr>)),
      [folder_work\<lparr>parent_id := Some ''f-personal''\<rparr>])
   \<and> \<not> updated_at folder_work < updated_at (folder_work\<lparr>parent_id := Some ''f-personal''\<rparr>)"
  by (simp add: folder_work_def env_same_second_def Let_def
        update_folder_parent_id_by_id_and_user_id_def db_first_def db_commit_def)

section \<open>Creating a folder\<close>

lemma fresh_id: "x \<notin> set (map id' tbl) \<Longrightarrow> \<forall>h \<in> set tbl. id' h \<noteq> x"
  by force

lemma find_new_row:
  "id' x \<notin> set (map id' tbl) \<Longrightarrow> find (\<lambda>g. id' g = id' x) (tbl @ [x]) = Some x"
  by (induction tbl) auto

lemma insert_succeeds:
  assumes "Commit \<notin> faults e" and "Refresh \<notin> faults e" and "uuid4 e \<notin> set (map id' tbl)"
  shows "insert_new_folder e tbl uid nm pid
         = (Inr (Some \<lparr>id' = uuid4 e, parent_id = pid, user_id = uid, name = nm,
                        items = None, meta = None,
                        created_at = time_first e, updated_at = time_second e\<rparr>),
            tbl @ [\<lparr>id' = uuid4 e, parent_id = pid, user_id = uid, name = nm,
                     items = None, meta = None,
                     created_at = time_first e, updated_at = time_second e\<rparr>])"
  using assms
    find_new_row [of "\<lparr>id' = uuid4 e, parent_id = pid, user_id = uid, name = nm,
                     items = None, meta = None,
                     created_at = time_first e, updated_at = time_second e\<rparr>" tbl]
  unfolding insert_new_folder_def Let_def db_commit_def db_refresh_def
  by simp

lemma insert_result:
  assumes "insert_new_folder e tbl uid nm pid = (Inr (Some f), tbl')"
  shows "f = \<lparr>id' = uuid4 e, parent_id = pid, user_id = uid, name = nm,
              items = None, meta = None,
              created_at = time_first e, updated_at = time_second e\<rparr>
         \<and> tbl' = tbl @ [f] \<and> uuid4 e \<notin> set (map id' tbl)
         \<and> Commit \<notin> faults e \<and> Refresh \<notin> faults e"
proof -
  from assms have ok: "Commit \<notin> faults e" "uuid4 e \<notin> set (map id' tbl)"
    unfolding insert_new_folder_def Let_def db_commit_def
    by (auto split: if_splits)
  from assms ok have "Refresh \<notin> faults e"
    unfolding insert_new_folder_def Let_def db_commit_def db_refresh_def
    by (auto split: if_splits)
  with ok assms show ?thesis
    by (auto simp: insert_succeeds)
qed

lemma find_fresh_append:
  "\<forall>g \<in> set tbl. id' g \<noteq> id' f \<Longrightarrow>
   find (\<lambda>g. id' g = id' f \<and> user_id g = user_id f) (tbl @ [f]) = Some f"
  by (induction tbl) auto

text \<open>
  C1, as the code has it. Creation succeeds when commit and refresh do not fail and the
  generated id is not taken. Whenever \<^verbatim>\<open>insert_new_folder\<close> returns a folder,
  \<^verbatim>\<open>get_folder_by_id_and_user_id\<close> with the returned id and the same user (its
  query not failing) returns that folder, whose name, parent and user are the ones
  supplied, whose \<^verbatim>\<open>created_at\<close> is the first clock reading of the creation and
  whose \<^verbatim>\<open>updated_at\<close> is the second one.
\<close>

theorem create_then_get:
  assumes "Query \<notin> faults e2"
  shows "(Commit \<notin> faults e \<and> Refresh \<notin> faults e \<and> uuid4 e \<notin> set (map id' tbl) \<longrightarrow>
            (\<exists>f. fst (insert_new_folder e tbl uid nm pid) = Inr (Some f)))
       \<and> (insert_new_folder e tbl uid nm pid = (Inr (Some f), tbl') \<longrightarrow>
            get_folder_by_id_and_user_id e2 tbl' (id' f) uid = Inr (Some f)
            \<and> name f = nm \<and> parent_id f = pid \<and> user_id f = uid
            \<and> created_at f = time_first e \<and> updated_at f = time_second e)"
proof (rule conjI)
  show "Commit \<notin> faults e \<and> Refresh \<notin> faults e \<and> uuid4 e \<notin> set (map id' tbl) \<longrightarrow>
          (\<exists>f. fst (insert_new_folder e tbl uid nm pid) = Inr (Some f))"
    by (simp add: insert_succeeds)
next
  show "insert_new_folder e tbl uid nm pid = (Inr (Some f), tbl') \<longrightarrow>
          get_folder_by_id_and_user_id e2 tbl' (id' f) uid = Inr (Some f)
          \<and> name f = nm \<and> parent_id f = pid \<and> user_id f = uid
          \<and> created_at f = time_first e \<and> updated_at f = time_second e"
  proof (rule impI)
    assume ins: "insert_new_folder e tbl uid nm pid = (Inr (Some f), tbl')"
    note r = insert_result [OF ins]
    from r have fields: "id' f = uuid4 e" "user_id f = uid" "name f = nm" "parent_id f = pid"
      "created_at f = time_first e" "updated_at f = time_second e"
      by simp_all
    from r have "uuid4 e \<notin> set (map id' tbl)" by blast
    then have "\<forall>g \<in> set tbl. id' g \<noteq> uuid4 e" by (rule fresh_id)
    with fields(1) have "\<forall>g \<in> set tbl. id' g \<noteq> id' f" by simp
    then have "find (\<lambda>g. id' g = id' f \<and> user_id g = user_id f) (tbl @ [f]) = Some f"
      by (rule find_fresh_append)
    with r fields(2) assms have "get_folder_by_id_and_user_id e2 tbl' (id' f) uid = Inr (Some f)"
      by (simp add: get_folder_by_id_and_user_id_def db_first_def)
    with fields show "get_folder_by_id_and_user_id e2 tbl' (id' f) uid = Inr (Some f)
              \<and> name f = nm \<and> parent_id f = pid \<and> user_id f = uid
              \<and> created_at f = time_first e \<and> updated_at f = time_second e"
      by simp
  qed
qed

theorem create_then_get_witness:
  "Query \<notin> faults env_ok
   \<and> Commit \<notin> faults env_tick \<and> Refresh \<notin> faults env_tick
   \<and> uuid4 env_tick \<notin> set (map id' [folder_personal])
   \<and> insert_new_folder env_tick [folder_personal] ''u1'' ''Work'' None
       = (Inr (Some folder_created_tick), [folder_personal, folder_created_tick])
   \<and> get_folder_by_id_and_user_id env_ok [folder_personal, folder_created_tick]
       (id' folder_created_tick) ''u1'' = Inr (Some folder_created_tick)
   \<and> created_at folder_created_tick = time_first env_tick
   \<and> updated_at folder_created_tick = time_second env_tick"
  using create_then_get
      [where ?e2.0 = env_ok and e = env_tick and tbl = "[folder_personal]" and uid = "''u1''"
         and nm = "''Work''" and pid = None and f = folder_created_tick
         and tbl' = "[folder_personal, folder_created_tick]"]
  by (simp add: folder_personal_def folder_created_tick_def env_ok_def env_tick_def
        insert_new_folder_def db_commit_def db_refresh_def Let_def)

text \<open>
  C1 as stated fails when the second changes between the two clock readings of
  \<^verbatim>\<open>insert_new_folder\<close>: the folder read back has \<^verbatim>\<open>created_at\<close> 1700000100
  and \<^verbatim>\<open>updated_at\<close> 1700000101.
\<close>

theorem create_then_get_counterexample:
  "insert_new_folder env_tick [] ''u1'' ''Work'' None
     = (Inr (Some folder_created_tick), [folder_created_tick])
   \<and> get_folder_by_id_and_user_id env_ok [folder_created_tick] (id' folder_created_tick) ''u1''
     = Inr (Some folder_created_tick)
   \<and> created_at folder_created_tick \<noteq> updated_at folder_created_tick"
  by (simp add: folder_created_tick_def env_ok_def env_tick_def
        insert_new_folder_def db_commit_def db_refresh_def Let_def
        get_folder_by_id_and_user_id_def db_first_def)

lemma insert_refused:
  assumes "Commit \<in> faults e \<or> uuid4 e \<in> set (map id' tbl)"
  shows "insert_new_folder e tbl uid nm pid = (Inr None, tbl)"
  using assms unfolding insert_new_folder_def Let_def db_commit_def by auto

lemma insert_Some_iff:
  "(\<exists>f. fst (insert_new_folder e tbl uid nm pid) = Inr (Some f))
   \<longleftrightarrow> (Commit \<notin> faults e \<and> Refresh \<notin> faults e \<and> uuid4 e \<notin> set (map id' tbl))"
proof
  assume "\<exists>f. fst (insert_new_folder e tbl uid nm pid) = Inr (Some f)"
  then obtain f where f: "fst (insert_new_folder e tbl uid nm pid) = Inr (Some f)" ..
  then have "insert_new_folder e tbl uid nm pid
             = (Inr (Some f), snd (insert_new_folder e tbl uid nm pid))"
    by (metis prod.collapse)
  from insert_result [OF this]
  show "Commit \<notin> faults e \<and> Refresh \<notin> faults e \<and> uuid4 e \<notin> set (map id' tbl)"
    by blast
next
  assume "Commit \<notin> faults e \<and> Refresh \<notin> faults e \<and> uuid4 e \<notin> set (map id' tbl)"
  then show "\<exists>f. fst (insert_new_folder e tbl uid nm pid) = Inr (Some f)"
    by (simp add: insert_succeeds)
qed

text \<open>
  C8, as the code has it. \<^verbatim>\<open>insert_new_folder\<close> makes no check of the names of
  siblings: in a table that already holds a folder with the given user, name and parent,
  the call with the same user, name and parent returns a folder exactly when commit and
  refresh do not fail and the generated id is not the id of a stored folder, whatever
  names are stored. Whenever it returns a folder, the table after the call is the table
  before it with that folder appended; the new folder carries the user, name and parent
  given, is another row than the one already there, and its id differs from the id of
  every folder stored before. When the commit fails or the generated id is taken, the
  call returns \<^verbatim>\<open>None\<close> and the table is as before.
\<close>

theorem create_ignores_siblings:
  assumes "g \<in> set tbl" and "user_id g = uid" and "name g = nm" and "parent_id g = pid"
  shows "((\<exists>f. fst (insert_new_folder e tbl uid nm pid) = Inr (Some f))
            \<longleftrightarrow> (Commit \<notin> faults e \<and> Refresh \<notin> faults e \<and> uuid4 e \<notin> set (map id' tbl)))
       \<and> (insert_new_folder e tbl uid nm pid = (Inr (Some f), tbl') \<longrightarrow>
            tbl' = tbl @ [f] \<and> g \<in> set tbl' \<and> f \<noteq> g
            \<and> user_id f = uid \<and> name f = nm \<and> parent_id f = pid
            \<and> (\<forall>h \<in> set tbl. id' h \<noteq> id' f))
       \<and> (Commit \<in> faults e \<or> uuid4 e \<in> set (map id' tbl) \<longrightarrow>
            insert_new_folder e tbl uid nm pid = (Inr None, tbl))"
proof (intro conjI)
  show "(\<exists>f. fst (insert_new_folder e tbl uid nm pid) = Inr (Some f))
          \<longleftrightarrow> (Commit \<notin> faults e \<and> Refresh \<notin> faults e \<and> uuid4 e \<notin> set (map id' tbl))"
    by (rule insert_Some_iff)
next
  show "insert_new_folder e tbl uid nm pid = (Inr (Some f), tbl') \<longrightarrow>
          tbl' = tbl @ [f] \<and> g \<in> set tbl' \<and> f \<noteq> g
          \<and> user_id f = uid \<and> name f = nm \<and> parent_id f = pid
          \<and> (\<forall>h \<in> set tbl. id' h \<noteq> id' f)"
  proof (rule impI)
    assume ins: "insert_new_folder e tbl uid nm pid = (Inr (Some f), tbl')"
    note r = insert_result [OF ins]
    from r have fields: "id' f = uuid4 e" "user_id f = uid" "name f = nm" "parent_id f = pid"
      by simp_all
    from r have tbl': "tbl' = tbl @ [f]" by blast
    from r have "uuid4 e \<notin> set (map id' tbl)" by blast
    then have "\<forall>h \<in> set tbl. id' h \<noteq> uuid4 e" by (rule fresh_id)
    with fields(1) have fresh: "\<forall>h \<in> set tbl. id' h \<noteq> id' f" by simp
    with assms(1) have "f \<noteq> g" by auto
    with tbl' assms(1) fields fresh show
      "tbl' = tbl @ [f] \<and> g \<in> set tbl' \<and> f \<noteq> g
       \<and> user_id f = uid \<and> name f = nm \<and> parent_id f = pid
       \<and> (\<forall>h \<in> set tbl. id' h \<noteq> id' f)"
      by simp
  qed
next
  show "Commit \<in> faults e \<or> uuid4 e \<in> set (map id' tbl) \<longrightarrow>
          insert_new_folder e tbl uid nm pid = (Inr None, tbl)"
    using insert_refused [of e tbl uid nm pid] by blast
qed

theorem create_ignores_siblings_witness:
  "folder_work \<in> set [folder_work, folder_personal]
   \<and> user_id folder_work = ''u1'' \<and> name folder_work = ''Work'' \<and> parent_id folder_work = None
   \<and> Commit \<notin> faults env_ok \<and> Refresh \<notin> faults env_ok
   \<and> uuid4 env_ok \<notin> set (map id' [folder_work, folder_personal])
   \<and> insert_new_folder env_ok [folder_work, folder_personal] ''u1'' ''Work'' None
       = (Inr (Some folder_created), [folder_work, folder_personal, folder_created])
   \<and> folder_created \<noteq> folder_work
   \<and> name folder_created = name folder_work
   \<and> uuid4 env_collision \<in> set (map id' [folder_work, folder_personal])
   \<and> insert_new_folder env_collision [folder_work, folder_personal] ''u1'' ''Work'' None
       = (Inr None, [folder_work, folder_personal])"
  using create_ignores_siblings
      [where g = folder_work and tbl = "[folder_work, folder_personal]" and uid = "''u1''"
         and nm = "''Work''" and pid = None and e = env_ok and f = folder_created
         and tbl' = "[folder_work, folder_personal, folder_created]"]
    create_ignores_siblings
      [where g = folder_work and tbl = "[folder_work, folder_personal]" and uid = "''u1''"
         and nm = "''Work''" and pid = None and e = env_collision]
  by (simp add: folder_work_def folder_personal_def folder_created_def env_ok_def
        env_collision_def insert_new_folder_def db_commit_def db_refresh_def Let_def)

text \<open>
  C8 as stated fails in a table that holds \<open>Work\<close> at the root of user \<open>u1\<close>: when
  the storage cannot be reached, and when the generated id is the id of the stored
  folder, the call for the same user, name and parent returns \<^verbatim>\<open>None\<close> and no
  second folder is stored.
\<close>

theorem create_not_always_counterexample:
  "folder_work \<in> set [folder_work]
   \<and> user_id folder_work = ''u1'' \<and> name folder_work = ''Work'' \<and> parent_id folder_work = None
   \<and> insert_new_folder env_storage_down [folder_work] ''u1'' ''Work'' None
       = (Inr None, [folder_work])
   \<and> insert_new_folder env_collision [folder_work] ''u1'' ''Work'' None
       = (Inr None, [folder_work])"
  by (simp add: folder_work_def env_storage_down_def env_collision_def
        insert_new_folder_def db_commit_def Let_def)

section \<open>Looking a folder up by parent and name\<close>

lemma ascii_lower_Work: "ascii_lower ''Work'' = ''work''"
  by code_simp

lemma find_by_name_result:
  "Query \<notin> faults e \<Longrightarrow>
   get_folder_by_parent_id_and_user_id_and_name str_lower e tbl pid uid nm
   = Inr (find (\<lambda>f. parent_id f = pid \<and> user_id f = uid \<and> name f = str_lower nm) tbl)"
  by (simp add: get_folder_by_parent_id_and_user_id_and_name_def db_first_def
        split: option.splits)

text \<open>
  C4, as the code has it, for every case mapping \<open>str_lower\<close>. When the query does not
  fail, \<^verbatim>\<open>get_folder_by_parent_id_and_user_id_and_name\<close> returns a folder exactly when
  some stored folder has the given parent and user and a stored name equal to the
  lower-cased form of the supplied name. For a stored folder whose name differs from its
  lower-cased form, the lookup by that exact name never returns that folder; it returns
  \<^verbatim>\<open>None\<close> when no stored folder with the same parent and user carries the
  lower-cased name, and another folder, one carrying the lower-cased name, otherwise.
\<close>

theorem find_by_name_lowercases:
  assumes "Query \<notin> faults e"
  shows "((\<exists>r. get_folder_by_parent_id_and_user_id_and_name str_lower e tbl pid uid nm
                 = Inr (Some r))
            \<longleftrightarrow> (\<exists>g \<in> set tbl. parent_id g = pid \<and> user_id g = uid \<and> name g = str_lower nm))
       \<and> (f \<in> set tbl \<and> str_lower (name f) \<noteq> name f \<longrightarrow>
            get_folder_by_parent_id_and_user_id_and_name str_lower e tbl
              (parent_id f) (user_id f) (name f) \<noteq> Inr (Some f)
            \<and> ((\<forall>g \<in> set tbl. parent_id g = parent_id f \<and> user_id g = user_id f
                    \<longrightarrow> name g \<noteq> str_lower (name f)) \<longrightarrow>
                get_folder_by_parent_id_and_user_id_and_name str_lower e tbl
                  (parent_id f) (user_id f) (name f) = Inr None)
            \<and> ((\<exists>g \<in> set tbl. parent_id g = parent_id f \<and> user_id g = user_id f
                    \<and> name g = str_lower (name f)) \<longrightarrow>
                (\<exists>r \<in> set tbl. r \<noteq> f \<and> name r = str_lower (name f)
                   \<and> get_folder_by_parent_id_and_user_id_and_name str_lower e tbl
                       (parent_id f) (user_id f) (name f) = Inr (Some r))))"
proof (rule conjI)
  show "(\<exists>r. get_folder_by_parent_id_and_user_id_and_name str_lower e tbl pid uid nm
               = Inr (Some r))
          \<longleftrightarrow> (\<exists>g \<in> set tbl. parent_id g = pid \<and> user_id g = uid \<and> name g = str_lower nm)"
  proof -
    have "(\<exists>r. find (\<lambda>f. parent_id f = pid \<and> user_id f = uid \<and> name f = str_lower nm) tbl
                = Some r)
          \<longleftrightarrow> (\<exists>g \<in> set tbl. parent_id g = pid \<and> user_id g = uid \<and> name g = str_lower nm)"
      using find_None_iff
              [of "\<lambda>f. parent_id f = pid \<and> user_id f = uid \<and> name f = str_lower nm" tbl]
      by auto
    then show ?thesis
      by (simp add: find_by_name_result [OF assms])
  qed
next
  show "f \<in> set tbl \<and> str_lower (name f) \<noteq> name f \<longrightarrow>
          get_folder_by_parent_id_and_user_id_and_name str_lower e tbl
            (parent_id f) (user_id f) (name f) \<noteq> Inr (Some f)
          \<and> ((\<forall>g \<in> set tbl. parent_id g = parent_id f \<and> user_id g = user_id f
                  \<longrightarrow> name g \<noteq> str_lower (name f)) \<longrightarrow>
              get_folder_by_parent_id_and_user_id_and_name str_lower e tbl
                (parent_id f) (user_id f) (name f) = Inr None)
          \<and> ((\<exists>g \<in> set tbl. parent_id g = parent_id f \<and> user_id g = user_id f
                  \<and> name g = str_lower (name f)) \<longrightarrow>
              (\<exists>r \<in> set tbl. r \<noteq> f \<and> name r = str_lower (name f)
                 \<and> get_folder_by_parent_id_and_user_id_and_name str_lower e tbl
                     (parent_id f) (user_id f) (name f) = Inr (Some r)))"
  proof (rule impI)
    let ?P = "\<lambda>g. parent_id g = parent_id f \<and> user_id g = user_id f
                   \<and> name g = str_lower (name f)"
    let ?get = "get_folder_by_parent_id_and_user_id_and_name str_lower e tbl
                  (parent_id f) (user_id f) (name f)"
    assume a: "f \<in> set tbl \<and> str_lower (name f) \<noteq> name f"
    have res: "?get = Inr (find ?P tbl)"
      by (rule find_by_name_result [OF assms])
    have notf: "find ?P tbl \<noteq> Some f"
      using a by (auto dest: find_SomeD)
    then have first: "?get \<noteq> Inr (Some f)"
      by (simp add: res)
    have second: "(\<forall>g \<in> set tbl. parent_id g = parent_id f \<and> user_id g = user_id f
                      \<longrightarrow> name g \<noteq> str_lower (name f)) \<longrightarrow> ?get = Inr None"
      by (auto simp: res find_None_iff)
    have third: "(\<exists>g \<in> set tbl. ?P g) \<longrightarrow>
                 (\<exists>r \<in> set tbl. r \<noteq> f \<and> name r = str_lower (name f) \<and> ?get = Inr (Some r))"
    proof (rule impI)
      assume "\<exists>g \<in> set tbl. ?P g"
      then have "find ?P tbl \<noteq> None"
        by (auto simp: find_None_iff)
      then obtain r where r: "find ?P tbl = Some r"
        by auto
      then have "r \<in> set tbl \<and> ?P r"
        by (rule find_SomeD)
      moreover from r notf have "r \<noteq> f"
        by auto
      ultimately show "\<exists>r \<in> set tbl. r \<noteq> f \<and> name r = str_lower (name f) \<and> ?get = Inr (Some r)"
        using r res by auto
    qed
    from first second third show
      "?get \<noteq> Inr (Some f)
       \<and> ((\<forall>g \<in> set tbl. parent_id g = parent_id f \<and> user_id g = user_id f
               \<longrightarrow> name g \<noteq> str_lower (name f)) \<longrightarrow> ?get = Inr None)
       \<and> ((\<exists>g \<in> set tbl. parent_id g = parent_id f \<and> user_id g = user_id f
               \<and> name g = str_lower (name f)) \<longrightarrow>
           (\<exists>r \<in> set tbl. r \<noteq> f \<and> name r = str_lower (name f) \<and> ?get = Inr (Some r)))"
      by blast
  qed
qed

theorem find_by_name_lowercases_witness:
  "Query \<notin> faults env_ok
   \<and> get_folder_by_parent_id_and_user_id_and_name ascii_lower env_ok
       [folder_work_lower, folder_personal] None ''u1'' ''Work'' = Inr (Some folder_work_lower)
   \<and> folder_work \<in> set [folder_work, folder_personal]
   \<and> ascii_lower (name folder_work) \<noteq> name folder_work
   \<and> get_folder_by_parent_id_and_user_id_and_name ascii_lower env_ok
       [folder_work, folder_personal]
       (parent_id folder_work) (user_id folder_work) (name folder_work) = Inr None"
proof -
  have q: "Query \<notin> faults env_ok"
    by (simp add: env_ok_def)
  have low: "name folder_work_lower = ascii_lower ''Work''"
    by (simp add: folder_work_lower_def ascii_lower_Work)
  have changed: "ascii_lower (name folder_work) \<noteq> name folder_work"
    by (simp add: folder_work_def ascii_lower_Work)
  have hit: "get_folder_by_parent_id_and_user_id_and_name ascii_lower env_ok
               [folder_work_lower, folder_personal] None ''u1'' ''Work''
             = Inr (Some folder_work_lower)"
    using q low
    by (simp add: find_by_name_result folder_work_lower_def)
  have others: "\<forall>g \<in> set [folder_work, folder_personal].
                  parent_id g = parent_id folder_work \<and> user_id g = user_id folder_work
                    \<longrightarrow> name g \<noteq> ascii_lower (name folder_work)"
    by (simp add: folder_work_def folder_personal_def ascii_lower_Work)
  have miss: "get_folder_by_parent_id_and_user_id_and_name ascii_lower env_ok
                [folder_work, folder_personal]
                (parent_id folder_work) (user_id folder_work) (name folder_work) = Inr None"
    using find_by_name_lowercases
            [OF q, where f = folder_work and tbl = "[folder_work, folder_personal]"
               and str_lower = ascii_lower]
          changed others
    by simp
  from q hit changed miss show ?thesis by simp
qed

text \<open>
  C4 as stated fails when the lower-cased name is stored as well: with \<open>Work\<close> and
  \<open>work\<close> both at the root of user \<open>u1\<close>, the lookup of \<open>Work\<close>, which
  \<^verbatim>\<open>str.lower\<close> turns into \<open>work\<close>, returns the folder named \<open>work\<close>, not an
  absent result.
\<close>

theorem find_by_name_counterexample:
  "folder_work \<in> set [folder_work, folder_work_lower]
   \<and> name folder_work = ''Work''
   \<and> ascii_lower ''Work'' = ''work''
   \<and> get_folder_by_parent_id_and_user_id_and_name ascii_lower env_ok
       [folder_work, folder_work_lower]
       (parent_id folder_work) (user_id folder_work) (name folder_work)
     = Inr (Some folder_work_lower)"
proof -
  have "Query \<notin> faults env_ok"
    by (simp add: env_ok_def)
  then have "get_folder_by_parent_id_and_user_id_and_name ascii_lower env_ok
               [folder_work, folder_work_lower]
               (parent_id folder_work) (user_id folder_work) (name folder_work)
             = Inr (Some folder_work_lower)"
    by (simp add: find_by_name_result folder_work_def folder_work_lower_def ascii_lower_Work)
  then show ?thesis
    by (simp add: folder_work_def ascii_lower_Work)
qed

section \<open>Storage errors\<close>

lemma insert_returns: "\<exists>r. fst (insert_new_folder e tbl uid nm pid) = Inr r"
  by (simp add: insert_new_folder_def Let_def split: sum.splits)

lemma get_returns: "\<exists>r. get_folder_by_id_and_user_id e tbl fid uid = Inr r"
  by (simp add: get_folder_by_id_and_user_id_def split: sum.splits option.splits)

lemma find_by_name_returns:
  "\<exists>r. get_folder_by_parent_id_and_user_id_and_name str_lower e tbl pid uid nm = Inr r"
  by (simp add: get_folder_by_parent_id_and_user_id_and_name_def split: sum.splits option.splits)

lemma update_parent_returns:
  "\<exists>r. fst (update_folder_parent_id_by_id_and_user_id e tbl fid uid pid) = Inr r"
  by (simp add: update_folder_parent_id_by_id_and_user_id_def Let_def
        split: sum.splits option.splits)

lemma update_name_returns:
  "\<exists>r. fst (update_folder_name_by_id_and_user_id e tbl fid uid nm) = Inr r"
  by (simp add: update_folder_name_by_id_and_user_id_def Let_def
        split: sum.splits option.splits)

lemma update_items_returns:
  "\<exists>r. fst (update_folder_items_by_id_and_user_id e tbl fid uid its) = Inr r"
  by (simp add: update_folder_items_by_id_and_user_id_def Let_def
        split: sum.splits option.splits)

lemma delete_returns: "\<exists>r. fst (delete_folder_by_id_and_user_id e tbl fid uid) = Inr r"
  by (auto simp: delete_folder_by_id_and_user_id_def split: sum.splits)

lemma query_fault_absorbed:
  assumes "Query \<in> faults e"
  shows "get_folder_by_id_and_user_id e tbl fid uid = Inr None"
    and "get_folder_by_parent_id_and_user_id_and_name str_lower e tbl pid uid nm = Inr None"
    and "update_folder_parent_id_by_id_and_user_id e tbl fid uid pid = (Inr None, tbl)"
    and "update_folder_name_by_id_and_user_id e tbl fid uid nm = (Inr None, tbl)"
    and "update_folder_items_by_id_and_user_id e tbl fid uid its = (Inr None, tbl)"
    and "delete_folder_by_id_and_user_id e tbl fid uid = (Inr False, tbl)"
  using assms
  by (simp_all add: get_folder_by_id_and_user_id_def
        get_folder_by_parent_id_and_user_id_and_name_def
        update_folder_parent_id_by_id_and_user_id_def update_folder_name_by_id_and_user_id_def
        update_folder_items_by_id_and_user_id_def delete_folder_by_id_and_user_id_def db_first_def)

lemma commit_fault_absorbed:
  assumes "Commit \<in> faults e"
  shows "insert_new_folder e tbl uid nm pid = (Inr None, tbl)"
    and "update_folder_parent_id_by_id_and_user_id e tbl fid uid pid = (Inr None, tbl)"
    and "update_folder_name_by_id_and_user_id e tbl fid uid nm = (Inr None, tbl)"
    and "update_folder_items_by_id_and_user_id e tbl fid uid its = (Inr None, tbl)"
    and "delete_folder_by_id_and_user_id e tbl fid uid = (Inr False, tbl)"
  using assms
  by (simp_all add: insert_new_folder_def
        update_folder_parent_id_by_id_and_user_id_def update_folder_name_by_id_and_user_id_def
        update_folder_items_by_id_and_user_id_def delete_folder_by_id_and_user_id_def
        db_commit_def db_delete_def Let_def split: sum.splits option.splits)

lemma refresh_fault_absorbed:
  "Refresh \<in> faults e \<Longrightarrow> fst (insert_new_folder e tbl uid nm pid) = Inr None"
  by (simp add: insert_new_folder_def db_refresh_def Let_def split: sum.splits)

lemma list_by_user_result:
  "get_folders_by_user_id e tbl uid
   = (if Query \<in> faults e then Inl (OperationalError Query)
      else Inr (filter (\<lambda>f. user_id f = uid) tbl))"
  by (simp add: get_folders_by_user_id_def db_all_def)

lemma list_by_parent_result:
  "get_folders_by_parent_id_and_user_id e tbl pid uid
   = (if Query \<in> faults e then Inl (OperationalError Query)
      else Inr (filter (\<lambda>f. parent_id f = pid \<and> user_id f = uid) tbl))"
  by (simp add: get_folders_by_parent_id_and_user_id_def db_all_def)

text \<open>
  C7, as the code has it. The seven operations with an exception handler (create, get by
  id, lookup by parent and name, the three updates, delete) never pass an exception to
  their caller: in every environment they return a value, and a failing query, commit or
  refresh gives \<^verbatim>\<open>None\<close>, or \<^verbatim>\<open>False\<close> for delete. The two list
  operations, \<^verbatim>\<open>get_folders_by_user_id\<close> and
  \<^verbatim>\<open>get_folders_by_parent_id_and_user_id\<close>, have no handler: when their query
  fails the exception reaches the caller, and otherwise they return the matching rows.
\<close>

theorem storage_errors_absorbed_except_lists:
  "(\<exists>r. fst (insert_new_folder e tbl uid nm pid) = Inr r)
   \<and> (\<exists>r. get_folder_by_id_and_user_id e tbl fid uid = Inr r)
   \<and> (\<exists>r. get_folder_by_parent_id_and_user_id_and_name str_lower e tbl pid uid nm = Inr r)
   \<and> (\<exists>r. fst (update_folder_parent_id_by_id_and_user_id e tbl fid uid pid) = Inr r)
   \<and> (\<exists>r. fst (update_folder_name_by_id_and_user_id e tbl fid uid nm) = Inr r)
   \<and> (\<exists>r. fst (update_folder_items_by_id_and_user_id e tbl fid uid its) = Inr r)
   \<and> (\<exists>r. fst (delete_folder_by_id_and_user_id e tbl fid uid) = Inr r)
   \<and> (Query \<in> faults e \<longrightarrow>
        get_folder_by_id_and_user_id e tbl fid uid = Inr None
        \<and> get_folder_by_parent_id_and_user_id_and_name str_lower e tbl pid uid nm = Inr None
        \<and> update_folder_parent_id_by_id_and_user_id e tbl fid uid pid = (Inr None, tbl)
        \<and> update_folder_name_by_id_and_user_id e tbl fid uid nm = (Inr None, tbl)
        \<and> update_folder_items_by_id_and_user_id e tbl fid uid its = (Inr None, tbl)
        \<and> delete_folder_by_id_and_user_id e tbl fid uid = (Inr False, tbl))
   \<and> (Commit \<in> faults e \<longrightarrow>
        insert_new_folder e tbl uid nm pid = (Inr None, tbl)
        \<and> update_folder_parent_id_by_id_and_user_id e tbl fid uid pid = (Inr None, tbl)
        \<and> update_folder_name_by_id_and_user_id e tbl fid uid nm = (Inr None, tbl)
        \<and> update_folder_items_by_id_and_user_id e tbl fid uid its = (Inr None, tbl)
        \<and> delete_folder_by_id_and_user_id e tbl fid uid = (Inr False, tbl))
   \<and> (Refresh \<in> faults e \<longrightarrow> fst (insert_new_folder e tbl uid nm pid) = Inr None)
   \<and> (Query \<in> faults e \<longrightarrow>
        get_folders_by_user_id e tbl uid = Inl (OperationalError Query)
        \<and> get_folders_by_parent_id_and_user_id e tbl pid uid = Inl (OperationalError Query))
   \<and> (Query \<notin> faults e \<longrightarrow>
        get_folders_by_user_id e tbl uid = Inr (filter (\<lambda>f. user_id f = uid) tbl)
        \<and> get_folders_by_parent_id_and_user_id e tbl pid uid
            = Inr (filter (\<lambda>f. parent_id f = pid \<and> user_id f = uid) tbl))"
  using insert_returns [of e tbl uid nm pid] get_returns [of e tbl fid uid]
    find_by_name_returns [of str_lower e tbl pid uid nm] update_parent_returns [of e tbl fid uid pid]
    update_name_returns [of e tbl fid uid nm] update_items_returns [of e tbl fid uid its]
    delete_returns [of e tbl fid uid]
  by (simp add: query_fault_absorbed commit_fault_absorbed refresh_fault_absorbed
        list_by_user_result list_by_parent_result)

theorem storage_errors_absorbed_except_lists_witness:
  "Query \<in> faults env_storage_down \<and> Commit \<in> faults env_storage_down
   \<and> Refresh \<in> faults env_storage_down \<and> Query \<notin> faults env_ok
   \<and> get_folder_by_id_and_user_id env_storage_down [folder_work] ''f-work'' ''u1'' = Inr None
   \<and> insert_new_folder env_storage_down [folder_work] ''u1'' ''Play'' None
       = (Inr None, [folder_work])
   \<and> delete_folder_by_id_and_user_id env_storage_down [folder_work] ''f-work'' ''u1''
       = (Inr False, [folder_work])
   \<and> get_folders_by_user_id env_storage_down [folder_work] ''u1''
       = Inl (OperationalError Query)
   \<and> get_folders_by_user_id env_ok [folder_work] ''u1''
       = Inr (filter (\<lambda>f. user_id f = ''u1'') [folder_work])"
  using storage_errors_absorbed_except_lists
          [where e = env_storage_down and tbl = "[folder_work]" and fid = "''f-work''"
             and uid = "''u1''" and nm = "''Play''" and pid = None]
        storage_errors_absorbed_except_lists
          [where e = env_ok and tbl = "[folder_work]" and fid = "''f-work''"
             and uid = "''u1''" and nm = "''Play''" and pid = None]
  by (simp add: env_storage_down_def env_ok_def)

text \<open>
  C7 as stated fails for the two list operations: with the storage unreachable, each of
  them raises the error of its query instead of returning.
\<close>

theorem list_operations_raise_counterexample:
  "get_folders_by_user_id env_storage_down [folder_work] ''u1'' = Inl (OperationalError Query)
   \<and> get_folders_by_parent_id_and_user_id env_storage_down [folder_work] None ''u1''
       = Inl (OperationalError Query)"
  by (simp add: get_folders_by_user_id_def get_folders_by_parent_id_and_user_id_def
        db_all_def env_storage_down_def)

end
